theory Spec2Isabelle
  imports Main "HOL-Library.Word"
begin

unbundle bit_operations_syntax

section \<open>Data model\<close>

text \<open>
  The virtual machine of the repository is an LC-3 interpreter. Its words are
  \<^verbatim>\<open>uint16_t\<close>, modelled as \<^typ>\<open>16 word\<close>: addition wraps modulo \<open>2 ^ 16\<close>, and the
  shifts of the C++ source, done on \<^verbatim>\<open>int\<close> after integer promotion and truncated when
  the result is stored in a \<^verbatim>\<open>uint16_t\<close>, are \<^const>\<open>push_bit\<close> and \<^const>\<open>drop_bit\<close> on
  the word. Bytes given to and taken from the C runtime are \<^typ>\<open>8 word\<close>.
\<close>

type_synonym u16 = "16 word"
type_synonym byte = "8 word"

subsection \<open>The enumerations of CPU.h, MemoryIO.h, ArithmeticLogicUnit.h and Trap.h\<close>

abbreviation (input) MEMORY_MAX :: int where "MEMORY_MAX \<equiv> 65536"

abbreviation (input) R_0 :: u16 where "R_0 \<equiv> 0"
abbreviation (input) R_7 :: u16 where "R_7 \<equiv> 7"
abbreviation (input) R_PC :: u16 where "R_PC \<equiv> 8"
abbreviation (input) R_COND :: u16 where "R_COND \<equiv> 9"

abbreviation (input) FL_POSITIVE :: u16 where "FL_POSITIVE \<equiv> 1"
abbreviation (input) FL_ZERO :: u16 where "FL_ZERO \<equiv> 2"
abbreviation (input) FL_NEGATIVE :: u16 where "FL_NEGATIVE \<equiv> 4"

abbreviation (input) PC_START :: u16 where "PC_START \<equiv> 0x3000"

abbreviation (input) MR_KBSR :: u16 where "MR_KBSR \<equiv> 0xFE00"
abbreviation (input) MR_KBDR :: u16 where "MR_KBDR \<equiv> 0xFE02"

abbreviation (input) OP_BR :: u16 where "OP_BR \<equiv> 0"
abbreviation (input) OP_ADD :: u16 where "OP_ADD \<equiv> 1"
abbreviation (input) OP_LD :: u16 where "OP_LD \<equiv> 2"
abbreviation (input) OP_ST :: u16 where "OP_ST \<equiv> 3"
abbreviation (input) OP_JSR :: u16 where "OP_JSR \<equiv> 4"
abbreviation (input) OP_AND :: u16 where "OP_AND \<equiv> 5"
abbreviation (input) OP_LDR :: u16 where "OP_LDR \<equiv> 6"
abbreviation (input) OP_STR :: u16 where "OP_STR \<equiv> 7"
abbreviation (input) OP_RTI :: u16 where "OP_RTI \<equiv> 8"
abbreviation (input) OP_NOT :: u16 where "OP_NOT \<equiv> 9"
abbreviation (input) OP_LDI :: u16 where "OP_LDI \<equiv> 10"
abbreviation (input) OP_STI :: u16 where "OP_STI \<equiv> 11"
abbreviation (input) OP_JMP :: u16 where "OP_JMP \<equiv> 12"
abbreviation (input) OP_RES :: u16 where "OP_RES \<equiv> 13"
abbreviation (input) OP_LEA :: u16 where "OP_LEA \<equiv> 14"
abbreviation (input) OP_TRAP :: u16 where "OP_TRAP \<equiv> 15"

abbreviation (input) TRAP_GETC :: u16 where "TRAP_GETC \<equiv> 0x20"
abbreviation (input) TRAP_OUT :: u16 where "TRAP_OUT \<equiv> 0x21"
abbreviation (input) TRAP_PUTS :: u16 where "TRAP_PUTS \<equiv> 0x22"
abbreviation (input) TRAP_IN :: u16 where "TRAP_IN \<equiv> 0x23"
abbreviation (input) TRAP_PUTSP :: u16 where "TRAP_PUTSP \<equiv> 0x24"
abbreviation (input) TRAP_HALT :: u16 where "TRAP_HALT \<equiv> 0x25"

text \<open>The value \<^verbatim>\<open>getchar\<close> returns at end of input.\<close>

abbreviation (input) EOF :: int where "EOF \<equiv> - 1"

subsection \<open>Machine and host state\<close>

text \<open>
  What reaches standard output: the bytes handed to \<^verbatim>\<open>putc\<close>, \<^verbatim>\<open>puts\<close> and \<^verbatim>\<open>printf\<close>, and
  the calls of \<^verbatim>\<open>fflush\<close>, in program order.
\<close>

datatype out_event = Put byte | Flush

text \<open>
  Class \<^verbatim>\<open>CPU\<close> holds \<^verbatim>\<open>registers[10]\<close>, \<^verbatim>\<open>memory[1 << 16]\<close> and \<^verbatim>\<open>running\<close>; the other
  classes only keep pointers into it. Both arrays are indexed by \<^verbatim>\<open>uint16_t\<close>: every
  memory index is in range, and a register index is one of the constants \<open>0\<close>, \<open>7\<close>,
  \<open>8\<close>, \<open>9\<close> or a three-bit field of the instruction. The host is the part of the
  process state the interpreter talks to:
  \<^item> \<open>polls\<close>: the answers \<^verbatim>\<open>OS::CheckKey\<close> will give, one per call (the Windows
    console calls it makes are outside the repository); a host with no answer left
    reports no key;
  \<^item> \<open>stdin\<close>: the bytes \<^verbatim>\<open>getchar\<close> will deliver; at the end \<^verbatim>\<open>getchar\<close> returns \<open>EOF\<close>;
  \<^item> \<open>stdout\<close>: the output events so far.
\<close>

record vm =
  registers :: "u16 \<Rightarrow> u16"
  memory :: "u16 \<Rightarrow> u16"
  running :: bool
  polls :: "bool list"
  stdin :: "byte list"
  stdout :: "out_event list"

text \<open>
  How an instruction can end other than by returning to the loop: \<^verbatim>\<open>abort()\<close>, and the
  string traps walking a C pointer past the last word of \<^verbatim>\<open>memory\<close> (undefined in C).
\<close>

datatype error = Abort | OutOfBounds

text \<open>
  The constructor \<^verbatim>\<open>CPU::CPU\<close> sets the condition register and the program counter;
  \<^verbatim>\<open>running\<close> has the default member initialiser 1. It takes whatever the two arrays
  hold, and the host as it is found.
\<close>

definition CPU :: "(u16 \<Rightarrow> u16) \<Rightarrow> (u16 \<Rightarrow> u16) \<Rightarrow> bool list \<Rightarrow> byte list \<Rightarrow> vm" where
  "CPU regs mem keys input =
     \<lparr>registers = regs(R_COND := FL_ZERO, R_PC := PC_START), memory = mem,
      running = True, polls = keys, stdin = input, stdout = []\<rparr>"

subsection \<open>The host: OS.cpp and the C runtime\<close>

definition CheckKey :: "vm \<Rightarrow> bool \<times> vm" where
  "CheckKey s = (case polls s of [] \<Rightarrow> (False, s) | k # ks \<Rightarrow> (k, s\<lparr>polls := ks\<rparr>))"

definition getchar :: "vm \<Rightarrow> int \<times> vm" where
  "getchar s = (case stdin s of [] \<Rightarrow> (EOF, s) | c # cs \<Rightarrow> (uint c, s\<lparr>stdin := cs\<rparr>))"

text \<open>\<^verbatim>\<open>putc\<close> writes its argument converted to \<^verbatim>\<open>unsigned char\<close>.\<close>

definition putc :: "byte \<Rightarrow> vm \<Rightarrow> vm" where
  "putc c s = s\<lparr>stdout := stdout s @ [Put c]\<rparr>"

definition fflush :: "vm \<Rightarrow> vm" where
  "fflush s = s\<lparr>stdout := stdout s @ [Flush]\<rparr>"

text \<open>\<^verbatim>\<open>printf\<close> of a string without conversions; \<^verbatim>\<open>puts\<close> adds the newline.\<close>

definition printf :: "string \<Rightarrow> vm \<Rightarrow> vm" where
  "printf str s = s\<lparr>stdout := stdout s @ map (\<lambda>c. Put (of_char c)) str\<rparr>"

definition puts :: "string \<Rightarrow> vm \<Rightarrow> vm" where
  "puts str s = putc 0x0A (printf str s)"

section \<open>MemoryIO.cpp: the memory bus\<close>

definition Read :: "u16 \<Rightarrow> vm \<Rightarrow> u16 \<times> vm" where
  "Read memoryAddress s =
     (let s' =
        (if memoryAddress = MR_KBSR then
           (case CheckKey s of
              (key, s1) \<Rightarrow>
                if key then
                  (let s2 = s1\<lparr>memory := (memory s1)(MR_KBSR := push_bit 15 1)\<rparr>;
                       (ch, s3) = getchar s2
                   in s3\<lparr>memory := (memory s3)(MR_KBDR := word_of_int ch)\<rparr>)
                else s1\<lparr>memory := (memory s1)(MR_KBSR := 0)\<rparr>)
         else s)
      in (memory s' memoryAddress, s'))"

definition Write :: "u16 \<Rightarrow> u16 \<Rightarrow> vm \<Rightarrow> vm" where
  "Write address val s = s\<lparr>memory := (memory s)(address := val)\<rparr>"

section \<open>CPU.cpp: condition flags and the image loader\<close>

text \<open>The assignment \<^verbatim>\<open>registers[r] = v\<close>.\<close>

definition reg_write :: "u16 \<Rightarrow> u16 \<Rightarrow> vm \<Rightarrow> vm" where
  "reg_write r v s = s\<lparr>registers := (registers s)(r := v)\<rparr>"

definition UpdateFlags :: "u16 \<Rightarrow> vm \<Rightarrow> vm" where
  "UpdateFlags DR s =
     (if registers s DR = 0 then reg_write R_COND FL_ZERO s
      else if drop_bit 15 (registers s DR) = 1 then reg_write R_COND FL_NEGATIVE s
      else reg_write R_COND FL_POSITIVE s)"

text \<open>
  \<^verbatim>\<open>fread\<close> copies the bytes of the file into the object it is given. The program is
  built for Windows (\<^verbatim>\<open>Windows.h\<close>, \<^verbatim>\<open>conio.h\<close>), whose hosts are little-endian: the
  \<^verbatim>\<open>uint16_t\<close> made of the file bytes \<open>b0\<close>, \<open>b1\<close> in this order has \<open>b0\<close> as its low
  byte. \<open>fread16 n bs\<close> are the complete two-byte items among the first \<open>n\<close> of the
  stream, which is what the return value of \<^verbatim>\<open>fread\<close> counts.
\<close>

definition le16 :: "byte \<Rightarrow> byte \<Rightarrow> u16" where
  "le16 b0 b1 = ucast b0 OR push_bit 8 (ucast b1)"

fun fread16 :: "nat \<Rightarrow> byte list \<Rightarrow> u16 list" where
  "fread16 n (b0 # b1 # bs) = (if n = 0 then [] else le16 b0 b1 # fread16 (n - 1) bs)"
| "fread16 n bs = []"

text \<open>The items \<^verbatim>\<open>fread\<close> stores from the C pointer \<open>p\<close> (an index into \<^verbatim>\<open>memory\<close>) on.\<close>

fun fread_store :: "nat \<Rightarrow> u16 list \<Rightarrow> (u16 \<Rightarrow> u16) \<Rightarrow> (u16 \<Rightarrow> u16)" where
  "fread_store p [] mem = mem"
| "fread_store p (w # ws) mem = fread_store (Suc p) ws (mem(of_nat p := w))"

section \<open>ArithmeticLogicUnit.cpp: helpers\<close>

text \<open>
  \<^verbatim>\<open>SignExtend\<close> is called with the lengths 5, 6, 9 and 11 only; a length of 0 would
  shift by \<open>-1\<close>, which C leaves undefined, and is not a length of a field.
\<close>

definition SignExtend :: "u16 \<Rightarrow> nat \<Rightarrow> u16" where
  "SignExtend immNumber immNumberLength =
     (let signBit = drop_bit (immNumberLength - 1) immNumber AND 0x0001 in
      if signBit \<noteq> 0 then immNumber OR push_bit immNumberLength 0xFFFF
      else immNumber)"

definition Swap16 :: "u16 \<Rightarrow> u16" where
  "Swap16 number = push_bit 8 number OR drop_bit 8 number"

section \<open>CPU.cpp: the image loader, continued\<close>

text \<open>The loop \<^verbatim>\<open>while (read-- > 0) { *p = Swap16(*p); ++p; }\<close>.\<close>

fun swap_loop :: "nat \<Rightarrow> nat \<Rightarrow> (u16 \<Rightarrow> u16) \<Rightarrow> (u16 \<Rightarrow> u16)" where
  "swap_loop p 0 mem = mem"
| "swap_loop p (Suc read) mem = swap_loop (Suc p) read (mem(of_nat p := Swap16 (mem (of_nat p))))"

text \<open>
  \<^verbatim>\<open>CPU::ReadImageFile\<close> on the bytes of the opened file. \<^verbatim>\<open>MEMORY_MAX - origin\<close> is
  computed on \<^verbatim>\<open>int\<close> and stored in the \<^verbatim>\<open>uint16_t maxRead\<close>. The result is \<open>None\<close>
  where C does not say what memory holds afterwards: a file too short for the origin
  (it stays uninitialised), and a last item of one byte that \<^verbatim>\<open>fread\<close> starts to read
  (the item's value is indeterminate).
\<close>

definition ReadImageFile :: "byte list \<Rightarrow> vm \<Rightarrow> vm option" where
  "ReadImageFile file s =
     (case file of
        b0 # b1 # data \<Rightarrow>
          (let origin = Swap16 (le16 b0 b1);
               maxRead = (word_of_int (MEMORY_MAX - uint origin) :: u16);
               p = unat origin;
               items = fread16 (unat maxRead) data
           in if length items < unat maxRead \<and> odd (length data) then None
              else Some (s\<lparr>memory := swap_loop p (length items) (fread_store p items (memory s))\<rparr>))
      | _ \<Rightarrow> None)"

section \<open>ArithmeticLogicUnit.cpp: the instruction handlers\<close>

text \<open>
  The handlers \<^verbatim>\<open>AND\<close>, \<^verbatim>\<open>NOT\<close> and \<^verbatim>\<open>STR\<close> are \<open>AND_op\<close>, \<open>NOT_op\<close> and \<open>STR_op\<close> here:
  their names are taken by the bit operations and by string literals.
\<close>

definition ADD :: "u16 \<Rightarrow> vm \<Rightarrow> vm" where
  "ADD instruction s =
     (let DR = drop_bit 9 instruction AND 0x0007;
          SR1 = drop_bit 6 instruction AND 0x0007;
          Imm = drop_bit 5 instruction AND 0x0001;
          s1 = (if Imm \<noteq> 0 then
                  (let imm5 = SignExtend (instruction AND 0x001F) 5
                   in reg_write DR (registers s SR1 + imm5) s)
                else
                  (let SR2 = instruction AND 0x0007
                   in reg_write DR (registers s SR1 + registers s SR2) s))
      in UpdateFlags DR s1)"

definition AND_op :: "u16 \<Rightarrow> vm \<Rightarrow> vm" where
  "AND_op instruction s =
     (let DR = drop_bit 9 instruction AND 0x0007;
          SR1 = drop_bit 6 instruction AND 0x0007;
          Imm = drop_bit 5 instruction AND 0x0001;
          s1 = (if Imm \<noteq> 0 then
                  (let imm5 = SignExtend (instruction AND 0x001F) 5
                   in reg_write DR (registers s SR1 AND imm5) s)
                else
                  (let SR2 = instruction AND 0x0007
                   in reg_write DR (registers s SR1 AND registers s SR2) s))
      in UpdateFlags DR s1)"

definition NOT_op :: "u16 \<Rightarrow> vm \<Rightarrow> vm" where
  "NOT_op instruction s =
     (let DR = drop_bit 9 instruction AND 0x0007;
          SR1 = drop_bit 6 instruction AND 0x0007
      in UpdateFlags DR (reg_write DR (NOT (registers s SR1)) s))"

definition BR :: "u16 \<Rightarrow> vm \<Rightarrow> vm" where
  "BR instruction s =
     (let pcOffset = SignExtend (instruction AND 0x01FF) 9;
          conditionFlag = drop_bit 9 instruction AND 0x0007
      in if conditionFlag AND registers s R_COND \<noteq> 0
         then reg_write R_PC (registers s R_PC + pcOffset) s
         else s)"

definition JMP :: "u16 \<Rightarrow> vm \<Rightarrow> vm" where
  "JMP instruction s =
     (let SR1 = drop_bit 6 instruction AND 0x0007
      in reg_write R_PC (registers s SR1) s)"

definition JSR :: "u16 \<Rightarrow> vm \<Rightarrow> vm" where
  "JSR instruction s =
     (let longFlag = drop_bit 11 instruction AND 0x0001;
          s1 = reg_write R_7 (registers s R_PC) s
      in if longFlag \<noteq> 0 then
           (let longPCOffset = SignExtend (instruction AND 0x07FF) 11
            in reg_write R_PC (registers s1 R_PC + longPCOffset) s1)
         else
           (let SR1 = drop_bit 6 instruction AND 0x0007
            in reg_write R_PC (registers s1 SR1) s1))"

definition LD :: "u16 \<Rightarrow> vm \<Rightarrow> vm" where
  "LD instruction s =
     (let DR = drop_bit 9 instruction AND 0x0007;
          pcOffset = SignExtend (instruction AND 0x01FF) 9;
          (v, s1) = Read (registers s R_PC + pcOffset) s
      in UpdateFlags DR (reg_write DR v s1))"

definition LDR :: "u16 \<Rightarrow> vm \<Rightarrow> vm" where
  "LDR instruction s =
     (let DR = drop_bit 9 instruction AND 0x0007;
          SR1 = drop_bit 6 instruction AND 0x0007;
          offset = SignExtend (instruction AND 0x003F) 6;
          (v, s1) = Read (registers s SR1 + offset) s
      in UpdateFlags DR (reg_write DR v s1))"

definition LEA :: "u16 \<Rightarrow> vm \<Rightarrow> vm" where
  "LEA instruction s =
     (let DR = drop_bit 9 instruction AND 0x0007;
          pcOffset = SignExtend (instruction AND 0x01FF) 9
      in UpdateFlags DR (reg_write DR (registers s R_PC + pcOffset) s))"

definition ST :: "u16 \<Rightarrow> vm \<Rightarrow> vm" where
  "ST instruction s =
     (let DR = drop_bit 9 instruction AND 0x0007;
          pcOffset = SignExtend (instruction AND 0x01FF) 9
      in Write (registers s R_PC + pcOffset) (registers s DR) s)"

definition STI :: "u16 \<Rightarrow> vm \<Rightarrow> vm" where
  "STI instruction s =
     (let DR = drop_bit 9 instruction AND 0x0007;
          pcOffset = SignExtend (instruction AND 0x01FF) 9;
          (a, s1) = Read (registers s R_PC + pcOffset) s
      in Write a (registers s1 DR) s1)"

definition STR_op :: "u16 \<Rightarrow> vm \<Rightarrow> vm" where
  "STR_op instruction s =
     (let DR = drop_bit 9 instruction AND 0x0007;
          SR1 = drop_bit 6 instruction AND 0x0007;
          offset = SignExtend (instruction AND 0x003F) 6
      in Write (registers s SR1 + offset) (registers s DR) s)"

definition LDI :: "u16 \<Rightarrow> vm \<Rightarrow> vm" where
  "LDI instruction s =
     (let DR = drop_bit 9 instruction AND 0x0007;
          pc_offset = SignExtend (instruction AND 0x01FF) 9;
          (a, s1) = Read (registers s R_PC + pc_offset) s;
          (v, s2) = Read a s1
      in UpdateFlags DR (reg_write DR v s2))"

section \<open>Trap.cpp: the trap service routines\<close>

definition GETC :: "vm \<Rightarrow> vm" where
  "GETC s =
     (let (ch, s1) = getchar s
      in UpdateFlags R_0 (reg_write R_0 (word_of_int ch) s1))"

definition OUTC :: "vm \<Rightarrow> vm" where
  "OUTC s = fflush (putc (ucast (registers s R_0)) s)"

text \<open>
  The string traps walk a C pointer \<open>c\<close> from \<^verbatim>\<open>memoryPtr + R0\<close> upwards until it points
  to a zero word. The pointer does not wrap: past the last word of \<^verbatim>\<open>memory\<close> the read
  is out of bounds.
\<close>

function PUTS_loop :: "nat \<Rightarrow> vm \<Rightarrow> error + vm" where
  "PUTS_loop c s =
     (if \<not> int c < MEMORY_MAX then Inl OutOfBounds
      else if memory s (of_nat c) = 0 then Inr s
      else PUTS_loop (Suc c) (putc (ucast (memory s (of_nat c))) s))"
  by pat_completeness auto
termination
  by (relation "measure (\<lambda>(c, s). 65536 - c)") auto

definition PUTS :: "vm \<Rightarrow> error + vm" where
  "PUTS s =
     (case PUTS_loop (unat (registers s R_0)) s of
        Inl e \<Rightarrow> Inl e
      | Inr s1 \<Rightarrow> Inr (fflush s1))"

text \<open>
  \<^verbatim>\<open>char c = getchar()\<close> keeps the low byte; \<^verbatim>\<open>char\<close> is signed for the compiler of the
  Windows build, so \<^verbatim>\<open>(uint16_t)c\<close> extends the sign of the byte.
\<close>

definition INC :: "vm \<Rightarrow> vm" where
  "INC s =
     (let s1 = printf ''Enter a character: '' s;
          (ch, s2) = getchar s1;
          c = (word_of_int ch :: byte);
          s3 = fflush (putc c s2)
      in UpdateFlags R_0 (reg_write R_0 (scast c) s3))"

function PUTSP_loop :: "nat \<Rightarrow> vm \<Rightarrow> error + vm" where
  "PUTSP_loop c s =
     (if \<not> int c < MEMORY_MAX then Inl OutOfBounds
      else if memory s (of_nat c) = 0 then Inr s
      else
        (let char1 = (ucast (memory s (of_nat c) AND 0x00FF) :: byte);
             s1 = putc char1 s;
             char2 = (ucast (drop_bit 8 (memory s (of_nat c))) :: byte);
             s2 = (if char2 \<noteq> 0 then putc char2 s1 else s1)
         in PUTSP_loop (Suc c) s2))"
  by pat_completeness auto
termination
  by (relation "measure (\<lambda>(c, s). 65536 - c)") auto

definition PUTSP :: "vm \<Rightarrow> error + vm" where
  "PUTSP s =
     (case PUTSP_loop (unat (registers s R_0)) s of
        Inl e \<Rightarrow> Inl e
      | Inr s1 \<Rightarrow> Inr (fflush s1))"

definition HALT :: "vm \<Rightarrow> vm" where
  "HALT s = (fflush (puts ''HALT'' s))\<lparr>running := False\<rparr>"

definition Proxy :: "u16 \<Rightarrow> vm \<Rightarrow> error + vm" where
  "Proxy instruction s =
     (let s1 = reg_write R_7 (registers s R_PC) s;
          vector = instruction AND 0x00FF
      in if vector = TRAP_GETC then Inr (GETC s1)
         else if vector = TRAP_OUT then Inr (OUTC s1)
         else if vector = TRAP_PUTS then PUTS s1
         else if vector = TRAP_IN then Inr (INC s1)
         else if vector = TRAP_PUTSP then PUTSP s1
         else if vector = TRAP_HALT then Inr (HALT s1)
         else Inr s1)"

section \<open>VirtualMachine.cpp: the fetch-decode-execute loop\<close>

text \<open>
  \<^verbatim>\<open>memoryIOPtr->Read(cpuPtr->registers[R_PC]++)\<close>: the argument is the old program
  counter, and the increment is done when \<^verbatim>\<open>Read\<close> runs.
\<close>

definition fetch :: "vm \<Rightarrow> u16 \<times> vm" where
  "fetch s =
     (let pc = registers s R_PC
      in Read pc (reg_write R_PC (pc + 1) s))"

text \<open>The \<^verbatim>\<open>switch\<close> on the operation code.\<close>

definition execute :: "u16 \<Rightarrow> vm \<Rightarrow> error + vm" where
  "execute instruction s =
     (let operation = drop_bit 12 instruction
      in if operation = OP_ADD then Inr (ADD instruction s)
         else if operation = OP_AND then Inr (AND_op instruction s)
         else if operation = OP_NOT then Inr (NOT_op instruction s)
         else if operation = OP_BR then Inr (BR instruction s)
         else if operation = OP_JMP then Inr (JMP instruction s)
         else if operation = OP_JSR then Inr (JSR instruction s)
         else if operation = OP_LD then Inr (LD instruction s)
         else if operation = OP_LDI then Inr (LDI instruction s)
         else if operation = OP_LDR then Inr (LDR instruction s)
         else if operation = OP_LEA then Inr (LEA instruction s)
         else if operation = OP_ST then Inr (ST instruction s)
         else if operation = OP_STI then Inr (STI instruction s)
         else if operation = OP_STR then Inr (STR_op instruction s)
         else if operation = OP_TRAP then Proxy instruction s
         else Inl Abort)"

text \<open>One turn of the \<^verbatim>\<open>while\<close> body.\<close>

definition step :: "vm \<Rightarrow> error + vm" where
  "step s = (let (instruction, s1) = fetch s in execute instruction s1)"


text \<open>
  The states the program can be in: the constructed machine, then images loaded, then
  instructions executed while the run flag is set.
\<close>

inductive reachable :: "vm \<Rightarrow> bool" where
  constructed: "reachable (CPU regs mem keys input)"
| loaded: "reachable s \<Longrightarrow> ReadImageFile file s = Some s' \<Longrightarrow> reachable s'"
| stepped: "reachable s \<Longrightarrow> running s \<Longrightarrow> step s = Inr s' \<Longrightarrow> reachable s'"

text \<open>A sequence of operations on the memory bus.\<close>

datatype bus_op = BusRead u16 | BusWrite u16 u16

fun bus_run :: "bus_op list \<Rightarrow> vm \<Rightarrow> vm" where
  "bus_run [] s = s"
| "bus_run (BusRead a # ops) s = bus_run ops (snd (Read a s))"
| "bus_run (BusWrite a v # ops) s = bus_run ops (Write a v s)"

text \<open>An array of zero words, for concrete machines.\<close>

definition blank :: "u16 \<Rightarrow> u16" where
  "blank = (\<lambda>_. 0)"

section \<open>The words of the specification\<close>

text \<open>
  The condition code of a value: Z if it is zero, N if its bit 15 is one, P otherwise.
\<close>

definition sign_class :: "u16 \<Rightarrow> u16" where
  "sign_class v = (if v = 0 then FL_ZERO else if bit v 15 then FL_NEGATIVE else FL_POSITIVE)"

text \<open>The low \<open>w\<close> bits of a value read as a \<open>w\<close>-bit two's complement number.\<close>

definition signed_field :: "nat \<Rightarrow> u16 \<Rightarrow> int" where
  "signed_field w v =
     (let u = uint v mod 2 ^ w
      in if u < 2 ^ (w - 1) then u else u - 2 ^ w)"

text \<open>
  The words of an image after its origin, each stored big-endian in the file: high
  byte first.
\<close>

definition be16 :: "byte \<Rightarrow> byte \<Rightarrow> u16" where
  "be16 hi lo = push_bit 8 (ucast hi) OR ucast lo"

fun image_words :: "byte list \<Rightarrow> u16 list" where
  "image_words (hi # lo # bs) = be16 hi lo # image_words bs"
| "image_words bs = []"

text \<open>
  What PUTSP writes for one word: its low byte, then its high byte if that is not zero.
\<close>

definition packed_bytes :: "u16 \<Rightarrow> out_event list" where
  "packed_bytes w =
     Put (ucast w) # (if (ucast (drop_bit 8 w) :: byte) \<noteq> 0 then [Put (ucast (drop_bit 8 w))] else [])"

text \<open>
  Whether a sequence of bus operations latches the keyboard data register: some read
  of the status register in it finds a key available.
\<close>

fun kbdr_latched :: "bus_op list \<Rightarrow> vm \<Rightarrow> bool" where
  "kbdr_latched [] s = False"
| "kbdr_latched (BusRead a # ops) s =
     ((a = MR_KBSR \<and> fst (CheckKey s)) \<or> kbdr_latched ops (snd (Read a s)))"
| "kbdr_latched (BusWrite a v # ops) s = kbdr_latched ops (Write a v s)"

text \<open>That no operation of a sequence is a write to the address \<open>a\<close>.\<close>

fun no_write_to :: "u16 \<Rightarrow> bus_op list \<Rightarrow> bool" where
  "no_write_to a [] = True"
| "no_write_to a (BusRead b # ops) = no_write_to a ops"
| "no_write_to a (BusWrite b v # ops) = (a \<noteq> b \<and> no_write_to a ops)"


text \<open>The condition register holds exactly one of the three flags.\<close>

definition cond_ok :: "vm \<Rightarrow> bool" where
  "cond_ok s \<longleftrightarrow> registers s R_COND \<in> {FL_POSITIVE, FL_ZERO, FL_NEGATIVE}"

section \<open>Basic facts\<close>

subsection \<open>What each operation does to each component of the state\<close>

lemma blank_apply [simp]: "blank a = 0"
  by (simp add: blank_def)

lemma reg_write_fields [simp]:
  "registers (reg_write r v s) = (registers s)(r := v)"
  "memory (reg_write r v s) = memory s"
  "running (reg_write r v s) = running s"
  "polls (reg_write r v s) = polls s"
  "stdin (reg_write r v s) = stdin s"
  "stdout (reg_write r v s) = stdout s"
  by (simp_all add: reg_write_def)

lemma Write_fields [simp]:
  "registers (Write a v s) = registers s"
  "memory (Write a v s) = (memory s)(a := v)"
  "running (Write a v s) = running s"
  "polls (Write a v s) = polls s"
  "stdin (Write a v s) = stdin s"
  "stdout (Write a v s) = stdout s"
  by (simp_all add: Write_def)

lemma putc_fields [simp]:
  "registers (putc c s) = registers s"
  "memory (putc c s) = memory s"
  "running (putc c s) = running s"
  "polls (putc c s) = polls s"
  "stdin (putc c s) = stdin s"
  "stdout (putc c s) = stdout s @ [Put c]"
  by (simp_all add: putc_def)

lemma fflush_fields [simp]:
  "registers (fflush s) = registers s"
  "memory (fflush s) = memory s"
  "running (fflush s) = running s"
  "polls (fflush s) = polls s"
  "stdin (fflush s) = stdin s"
  "stdout (fflush s) = stdout s @ [Flush]"
  by (simp_all add: fflush_def)

lemma printf_fields [simp]:
  "registers (printf str s) = registers s"
  "memory (printf str s) = memory s"
  "running (printf str s) = running s"
  "polls (printf str s) = polls s"
  "stdin (printf str s) = stdin s"
  by (simp_all add: printf_def)

lemma puts_fields [simp]:
  "registers (puts str s) = registers s"
  "memory (puts str s) = memory s"
  "running (puts str s) = running s"
  "polls (puts str s) = polls s"
  "stdin (puts str s) = stdin s"
  by (simp_all add: puts_def)

lemma getchar_fields [simp]:
  "registers (snd (getchar s)) = registers s"
  "memory (snd (getchar s)) = memory s"
  "running (snd (getchar s)) = running s"
  "polls (snd (getchar s)) = polls s"
  "stdout (snd (getchar s)) = stdout s"
  by (simp_all add: getchar_def split: list.splits)

lemma CheckKey_fields [simp]:
  "registers (snd (CheckKey s)) = registers s"
  "memory (snd (CheckKey s)) = memory s"
  "running (snd (CheckKey s)) = running s"
  "stdin (snd (CheckKey s)) = stdin s"
  "stdout (snd (CheckKey s)) = stdout s"
  by (simp_all add: CheckKey_def split: list.splits)

lemma Read_fields [simp]:
  "registers (snd (Read a s)) = registers s"
  "running (snd (Read a s)) = running s"
  "stdout (snd (Read a s)) = stdout s"
  by (auto simp add: Read_def CheckKey_def getchar_def Let_def split: prod.splits list.splits)

lemma sign_bit_shift: "drop_bit 15 (x :: u16) = 1 \<longleftrightarrow> bit x 15"
proof
  assume "drop_bit 15 x = 1"
  then have "bit (drop_bit 15 x) 0" by simp
  then show "bit x 15" by (simp add: bit_simps)
next
  assume b: "bit x 15"
  show "drop_bit 15 x = 1"
    by (rule bit_word_eqI) (use b in \<open>auto simp add: bit_simps dest: bit_imp_le_length\<close>)
qed

lemma UpdateFlags_fields [simp]:
  "registers (UpdateFlags DR s) = (registers s)(R_COND := sign_class (registers s DR))"
  "memory (UpdateFlags DR s) = memory s"
  "running (UpdateFlags DR s) = running s"
  "polls (UpdateFlags DR s) = polls s"
  "stdin (UpdateFlags DR s) = stdin s"
  "stdout (UpdateFlags DR s) = stdout s"
  by (simp_all add: UpdateFlags_def sign_class_def sign_bit_shift)

lemma field3_le: "(x AND 7 :: u16) \<le> 7"
  by (rule word_and_le1)

lemma field3_not_special [simp]:
  "(x AND 7 :: u16) \<noteq> 8" "(x AND 7 :: u16) \<noteq> 9"
  "(8 :: u16) \<noteq> x AND 7" "(9 :: u16) \<noteq> x AND 7"
proof -
  have a: "x AND 7 = 8 \<Longrightarrow> False" and b: "x AND 7 = 9 \<Longrightarrow> False"
    using field3_le [of x] by simp_all
  show "(x AND 7 :: u16) \<noteq> 8" "(x AND 7 :: u16) \<noteq> 9"
    "(8 :: u16) \<noteq> x AND 7" "(9 :: u16) \<noteq> x AND 7"
    using a b by metis+
qed

lemma sign_class_cases: "sign_class v \<in> {FL_POSITIVE, FL_ZERO, FL_NEGATIVE}"
  by (simp add: sign_class_def)

subsection \<open>The handlers: condition register and program counter\<close>

lemmas handler_defs =
  ADD_def AND_op_def NOT_op_def LD_def LDR_def LDI_def LEA_def ST_def STI_def STR_op_def
  BR_def JMP_def JSR_def

text \<open>The condition register after a handler that updates the flags.\<close>

lemma ALU_flags:
  "registers (ADD i s) R_COND = sign_class (registers (ADD i s) (drop_bit 9 i AND 7))"
  "registers (AND_op i s) R_COND = sign_class (registers (AND_op i s) (drop_bit 9 i AND 7))"
  "registers (NOT_op i s) R_COND = sign_class (registers (NOT_op i s) (drop_bit 9 i AND 7))"
  "registers (LEA i s) R_COND = sign_class (registers (LEA i s) (drop_bit 9 i AND 7))"
  "registers (LD i s) R_COND = sign_class (registers (LD i s) (drop_bit 9 i AND 7))"
  "registers (LDR i s) R_COND = sign_class (registers (LDR i s) (drop_bit 9 i AND 7))"
  "registers (LDI i s) R_COND = sign_class (registers (LDI i s) (drop_bit 9 i AND 7))"
  by (simp_all add: handler_defs Let_def split_def)

lemma trap_flags:
  "registers (GETC s) R_COND = sign_class (registers (GETC s) R_0)"
  "registers (INC s) R_COND = sign_class (registers (INC s) R_0)"
  by (simp_all add: GETC_def INC_def Let_def split_def)

text \<open>The handlers that leave the program counter alone.\<close>

lemma ALU_pc:
  "registers (ADD i s) R_PC = registers s R_PC"
  "registers (AND_op i s) R_PC = registers s R_PC"
  "registers (NOT_op i s) R_PC = registers s R_PC"
  "registers (LEA i s) R_PC = registers s R_PC"
  "registers (LD i s) R_PC = registers s R_PC"
  "registers (LDR i s) R_PC = registers s R_PC"
  "registers (LDI i s) R_PC = registers s R_PC"
  "registers (ST i s) R_PC = registers s R_PC"
  "registers (STI i s) R_PC = registers s R_PC"
  "registers (STR_op i s) R_PC = registers s R_PC"
  by (simp_all add: handler_defs Let_def split_def)

lemma BR_pc:
  "registers (BR i s) R_PC =
     (if (drop_bit 9 i AND 7) AND registers s R_COND \<noteq> 0
      then registers s R_PC + SignExtend (i AND 0x01FF) 9 else registers s R_PC)"
  by (simp add: BR_def Let_def)

lemma fetch_pc: "registers (snd (fetch s)) R_PC = registers s R_PC + 1"
  by (simp add: fetch_def Let_def)

lemma fetch_registers: "registers (snd (fetch s)) = (registers s)(R_PC := registers s R_PC + 1)"
  by (simp add: fetch_def Let_def)

subsection \<open>The sixteen operation codes\<close>

lemma nat_less_16_cases:
  "n < (16::nat) \<Longrightarrow> n \<in> {0, 1, 2, 3, 4, 5, 6, 7, 8, 9, 10, 11, 12, 13, 14, 15}"
  by (simp add: insert_iff) arith

lemma opcode_cases:
  "drop_bit 12 (i :: u16) \<in> {0, 1, 2, 3, 4, 5, 6, 7, 8, 9, 10, 11, 12, 13, 14, 15}"
proof -
  have "unat i < 65536"
    using unsigned_less [of i, where ?'a = nat] by simp
  then have "unat (drop_bit 12 i) < 16"
    by (simp add: drop_bit_eq_div unat_div)
  moreover define n where "n = unat (drop_bit 12 i)"
  ultimately have "n < 16" and eq: "drop_bit 12 i = word_of_nat n"
    by simp_all
  then have "n \<in> {0, 1, 2, 3, 4, 5, 6, 7, 8, 9, 10, 11, 12, 13, 14, 15}"
    by (intro nat_less_16_cases)
  then show ?thesis
    unfolding eq by auto
qed

subsection \<open>The string loops\<close>

declare PUTS_loop.simps [simp del] PUTSP_loop.simps [simp del]

lemma PUTS_loop_fields:
  "PUTS_loop c s = Inr s' \<Longrightarrow>
     registers s' = registers s \<and> memory s' = memory s \<and> running s' = running s
     \<and> polls s' = polls s \<and> stdin s' = stdin s"
proof (induction c s rule: PUTS_loop.induct)
  case (1 c s)
  show ?case
  proof (cases "int c < MEMORY_MAX \<and> memory s (of_nat c) \<noteq> 0")
    case True
    with "1.prems" have "PUTS_loop (Suc c) (putc (ucast (memory s (of_nat c))) s) = Inr s'"
      by (subst (asm) PUTS_loop.simps) simp
    with True "1.IH" show ?thesis by simp
  next
    case False
    with "1.prems" show ?thesis
      by (subst (asm) PUTS_loop.simps) (auto split: if_splits)
  qed
qed

lemma PUTSP_loop_fields:
  "PUTSP_loop c s = Inr s' \<Longrightarrow>
     registers s' = registers s \<and> memory s' = memory s \<and> running s' = running s
     \<and> polls s' = polls s \<and> stdin s' = stdin s"
proof (induction c s rule: PUTSP_loop.induct)
  case (1 c s)
  show ?case
  proof (cases "int c < MEMORY_MAX \<and> memory s (of_nat c) \<noteq> 0")
    case True
    define s2 where "s2 =
      (if (ucast (drop_bit 8 (memory s (of_nat c))) :: byte) \<noteq> 0
       then putc (ucast (drop_bit 8 (memory s (of_nat c)))) (putc (ucast (memory s (of_nat c) AND 0x00FF)) s)
       else putc (ucast (memory s (of_nat c) AND 0x00FF)) s)"
    from True "1.prems" have "PUTSP_loop (Suc c) s2 = Inr s'"
      by (subst (asm) PUTSP_loop.simps) (simp add: s2_def Let_def)
    with True have "registers s' = registers s2 \<and> memory s' = memory s2 \<and> running s' = running s2
      \<and> polls s' = polls s2 \<and> stdin s' = stdin s2"
      by (intro "1.IH" [OF _ _ refl refl refl, folded s2_def]) (auto simp add: s2_def)
    then show ?thesis by (simp add: s2_def)
  next
    case False
    with "1.prems" show ?thesis
      by (subst (asm) PUTSP_loop.simps) (auto split: if_splits)
  qed
qed






section \<open>The memory bus\<close>

lemma allones: "(0xFFFF :: 16 word) = - 1"
  by simp

lemma word_of_int_uint_byte: "(word_of_int (uint (c :: byte)) :: u16) = ucast c"
  by (rule of_int_uint)

lemma ucast_byte_high_zero: "drop_bit 8 (ucast (c :: byte) :: u16) = 0"
  by (rule bit_word_eqI) (auto simp add: bit_simps dest: bit_imp_le_length)

text \<open>
  C1, amended. A read of the keyboard status register \<open>0xFE00\<close> first polls the host.
  With a key available it sets \<open>memory[0xFE00]\<close> to \<open>0x8000\<close> and stores what \<^verbatim>\<open>getchar\<close>
  returns, converted to 16 bits, in \<open>memory[0xFE02]\<close>: the consumed character \<open>c\<close> with a
  zero high byte, or \<open>0xFFFF\<close> when standard input is at its end and nothing is
  consumed. With no key available it sets \<open>memory[0xFE00]\<close> to \<open>0\<close>. In every case it
  returns the updated \<open>memory[0xFE00]\<close>. A read of any other address returns the stored
  word and changes nothing.
\<close>

theorem Read_spec:
  "(fst (CheckKey s) \<and> stdin s = c # cs \<longrightarrow>
      Read MR_KBSR s =
        (0x8000, s\<lparr>memory := (memory s)(MR_KBSR := 0x8000, MR_KBDR := ucast c),
                    polls := tl (polls s), stdin := cs\<rparr>)
      \<and> drop_bit 8 (ucast c :: u16) = 0)
   \<and> (fst (CheckKey s) \<and> stdin s = [] \<longrightarrow>
      Read MR_KBSR s =
        (0x8000, s\<lparr>memory := (memory s)(MR_KBSR := 0x8000, MR_KBDR := 0xFFFF),
                    polls := tl (polls s)\<rparr>))
   \<and> (\<not> fst (CheckKey s) \<longrightarrow>
      Read MR_KBSR s = (0, s\<lparr>memory := (memory s)(MR_KBSR := 0), polls := tl (polls s)\<rparr>))
   \<and> fst (Read MR_KBSR s) = memory (snd (Read MR_KBSR s)) MR_KBSR
   \<and> (a \<noteq> MR_KBSR \<longrightarrow> Read a s = (memory s a, s))"
  by (auto simp add: Read_def CheckKey_def getchar_def Let_def word_of_int_uint_byte
      ucast_byte_high_zero allones split: list.splits prod.splits)

theorem Read_spec_witness:
  "Read MR_KBSR (CPU blank blank [True] [0x41]) =
     (0x8000, (CPU blank blank [True] [0x41])
        \<lparr>memory := blank(MR_KBSR := 0x8000, MR_KBDR := 0x41), polls := [], stdin := []\<rparr>)
   \<and> Read MR_KBSR (CPU blank blank [True] []) =
     (0x8000, (CPU blank blank [True] [])
        \<lparr>memory := blank(MR_KBSR := 0x8000, MR_KBDR := 0xFFFF), polls := []\<rparr>)
   \<and> Read MR_KBSR (CPU blank blank [] [0x41]) =
     (0, (CPU blank blank [] [0x41])\<lparr>memory := blank(MR_KBSR := 0), polls := []\<rparr>)
   \<and> Read 0x3000 (CPU blank blank [True] [0x41]) = (0, CPU blank blank [True] [0x41])"
  using Read_spec [of "CPU blank blank [True] [0x41]" "0x41" "[]" "0x3000"]
    Read_spec [of "CPU blank blank [True] []" "0x41" "[]" "0x3000"]
    Read_spec [of "CPU blank blank [] [0x41]" "0x41" "[]" "0x3000"]
  by (simp add: CPU_def CheckKey_def)

text \<open>
  C1 as it is stated has every read of \<open>0xFE00\<close> with a key available store a value with
  a zero high byte. With a key reported and standard input at its end, \<^verbatim>\<open>getchar\<close>
  returns \<open>EOF\<close>, no character is consumed, and the data register receives \<open>0xFFFF\<close>,
  whose high byte is \<open>0xFF\<close>.
\<close>

theorem Read_KBSR_EOF_counterexample:
  "fst (CheckKey (CPU blank blank [True] []))
   \<and> Read MR_KBSR (CPU blank blank [True] []) =
       (0x8000, (CPU blank blank [True] [])
          \<lparr>memory := blank(MR_KBSR := 0x8000, MR_KBDR := 0xFFFF), polls := []\<rparr>)
   \<and> drop_bit 8 (0xFFFF :: u16) = 0xFF"
  by (simp add: Read_def CPU_def CheckKey_def getchar_def allones mask_eq_exp_minus_1)

section \<open>Sign extension\<close>

lemma signBit_iff: "(drop_bit n (x :: 16 word) AND 1 \<noteq> 0) = bit x n"
  by (simp add: and_one_eq bit_iff_odd_drop_bit mod_2_eq_odd)

lemma bit_SignExtend:
  assumes "0 < w"
  shows "bit (SignExtend x w) n \<longleftrightarrow> (if bit x (w - 1) then bit x n \<or> (w \<le> n \<and> n < 16) else bit x n)"
  unfolding SignExtend_def Let_def signBit_iff allones
  by (auto simp add: bit_simps dest: bit_imp_le_length)

lemma bit_SignExtend_mask:
  assumes "0 < w"
  shows "bit (SignExtend (v AND mask w) w) n \<longleftrightarrow> (if n < w then bit v n else n < 16 \<and> bit v (w - 1))"
  using assms by (auto simp add: bit_SignExtend bit_simps dest: bit_imp_le_length)

lemma sint_SignExtend_mask:
  assumes "0 < w" "w \<le> 16"
  shows "sint (SignExtend (v AND mask w) w) = signed_take_bit (w - 1) (uint v)"
proof (rule bit_eqI)
  fix n
  consider "n < w - 1" | "n = w - 1" | "w \<le> n"
    by linarith
  then show "bit (sint (SignExtend (v AND mask w) w)) n = bit (signed_take_bit (w - 1) (uint v)) n"
  proof cases
    case 1
    with assms show ?thesis
      by (auto simp add: bit_sint_iff bit_SignExtend_mask bit_signed_take_bit_iff bit_uint_iff min_def)
  next
    case 2
    with assms show ?thesis
      by (auto simp add: bit_sint_iff bit_SignExtend_mask bit_signed_take_bit_iff bit_uint_iff min_def)
  next
    case 3
    with assms show ?thesis
      by (cases "w = 16")
        (auto simp add: bit_sint_iff bit_SignExtend_mask bit_signed_take_bit_iff bit_uint_iff min_def
          dest: bit_imp_le_length)
  qed
qed

lemma signed_take_bit_int_cases:
  fixes k :: int
  shows "signed_take_bit n k =
    (if k mod 2 ^ Suc n < 2 ^ n then k mod 2 ^ Suc n else k mod 2 ^ Suc n - 2 ^ Suc n)"
proof -
  define u where "u = k mod 2 ^ Suc n"
  have u: "0 \<le> u" "u < 2 * 2 ^ n"
    by (simp_all add: u_def)
  have shift: "signed_take_bit n k = (u + 2 ^ n) mod 2 ^ Suc n - 2 ^ n"
    unfolding u_def signed_take_bit_eq_take_bit_shift take_bit_eq_mod
    by (simp add: mod_add_left_eq)
  have "signed_take_bit n k = (if u < 2 ^ n then u else u - 2 ^ Suc n)"
  proof (cases "u < 2 ^ n")
    case True
    with u have "(u + 2 ^ n) mod 2 ^ Suc n = u + 2 ^ n"
      by (intro mod_pos_pos_trivial) simp_all
    with True shift show ?thesis by simp
  next
    case False
    have "(u + 2 ^ n) mod 2 ^ Suc n = (u + 2 ^ n - 2 ^ Suc n) mod 2 ^ Suc n"
      by (metis mod_diff_right_eq mod_self diff_zero)
    also from False u have "\<dots> = u + 2 ^ n - 2 ^ Suc n"
      by (intro mod_pos_pos_trivial) simp_all
    finally show ?thesis
      using False shift by simp
  qed
  then show ?thesis
    by (simp add: u_def)
qed

lemma signed_field_eq:
  assumes "0 < w"
  shows "signed_field w v = signed_take_bit (w - 1) (uint v)"
proof -
  from assms obtain n where w: "w = Suc n"
    by (cases w) simp_all
  show ?thesis
    using signed_take_bit_int_cases [of n "uint v"]
    by (simp add: w signed_field_def Let_def)
qed

text \<open>
  C4. For every 16-bit value \<open>v\<close> and every width \<open>w\<close> among 5, 6, 9 and 11,
  \<open>SignExtend (v AND mask w) w\<close> read as a signed 16-bit number is the number the low \<open>w\<close>
  bits of \<open>v\<close> denote in \<open>w\<close>-bit two's complement; bit by bit, the result keeps bits
  \<open>0..w-1\<close> of its argument and has the argument's bit \<open>w-1\<close> in each of the bits
  \<open>w..15\<close>.
\<close>

theorem SignExtend_spec:
  assumes "w \<in> {5, 6, 9, 11}"
  shows "sint (SignExtend (v AND mask w) w) = signed_field w v
       \<and> (\<forall>n. bit (SignExtend (v AND mask w) w) n \<longleftrightarrow>
             (if n < w then bit (v AND mask w) n else n < 16 \<and> bit (v AND mask w) (w - 1)))"
proof -
  from assms have w: "0 < w" "w \<le> 16" by auto
  show ?thesis
    using w by (auto simp add: sint_SignExtend_mask signed_field_eq bit_SignExtend_mask bit_simps)
qed

theorem SignExtend_spec_witness:
  "(5::nat) \<in> {5, 6, 9, 11} \<and> sint (SignExtend (0x147F AND mask 5) 5) = - 1
     \<and> bit (SignExtend (0x147F AND mask 5) 5) 15"
  using SignExtend_spec [of 5 "0x147F"]
  by (simp add: signed_field_def bit_simps)

section \<open>The fetch-decode-execute loop\<close>












lemma Read_reg_write: "fst (Read a (reg_write r v s)) = fst (Read a s)"
  by (auto simp add: Read_def reg_write_def CheckKey_def getchar_def Let_def
      split: list.splits prod.splits)

text \<open>
  C5, amended. The fetch reads the bus at the program counter, which is incremented
  before the instruction is decoded. For every executed instruction other than JMP, JSR,
  TRAP and a BR whose condition holds, the program counter after the step is the
  counter before the fetch plus 1, modulo \<open>2 ^ 16\<close>; a BR that is not taken is among
  them.
\<close>

theorem step_pc:
  assumes "fetch s = (instruction, s1)"
    and "drop_bit 12 instruction \<notin> {OP_JMP, OP_JSR, OP_TRAP, OP_RTI, OP_RES}"
    and "drop_bit 12 instruction = OP_BR \<Longrightarrow>
           (drop_bit 9 instruction AND 7) AND registers s R_COND = 0"
  shows "instruction = fst (Read (registers s R_PC) s)
       \<and> registers s1 R_PC = registers s R_PC + 1
       \<and> (\<exists>s'. step s = Inr s' \<and> registers s' R_PC = registers s R_PC + 1)"
proof (intro conjI)
  from assms(1) have "instruction = fst (fetch s)"
    by simp
  then show "instruction = fst (Read (registers s R_PC) s)"
    by (simp add: fetch_def Let_def Read_reg_write)
  from assms(1) have regs: "registers s1 = (registers s)(R_PC := registers s R_PC + 1)"
    using fetch_registers [of s] by simp
  then show pc: "registers s1 R_PC = registers s R_PC + 1"
    by simp
  have step: "step s = execute instruction s1"
    using assms(1) by (simp add: step_def)
  from assms(3) regs have not_taken:
    "drop_bit 12 instruction = 0 \<Longrightarrow> registers (BR instruction s1) R_PC = registers s1 R_PC"
    by (simp add: BR_pc)
  from opcode_cases [of instruction] assms(2)
  have "\<exists>s'. execute instruction s1 = Inr s' \<and> registers s' R_PC = registers s1 R_PC"
    by (auto simp add: execute_def ALU_pc not_taken)
  with pc step show "\<exists>s'. step s = Inr s' \<and> registers s' R_PC = registers s R_PC + 1"
    by simp
qed

theorem step_pc_witness:
  "step (CPU blank (blank(0x3000 := 0x147F)) [] []) =
     Inr ((CPU blank (blank(0x3000 := 0x147F)) [] [])
            \<lparr>registers := blank(R_COND := FL_NEGATIVE, R_PC := 0x3001, 2 := 0xFFFF)\<rparr>)"
  using step_pc [OF prod.collapse [symmetric], of "CPU blank (blank(0x3000 := 0x147F)) [] []"]
  by (simp add: step_def fetch_def Read_def CPU_def reg_write_def Let_def execute_def ADD_def
      SignExtend_def UpdateFlags_def fun_eq_iff)

text \<open>
  C5 as it is stated leaves out the BR that is not taken and so covers the BR that is
  taken. With the condition register at Z and \<open>BRz #2\<close> (\<open>0x0402\<close>) at \<open>0x3000\<close>, the
  operation code is 0, the program counter before the fetch is \<open>0x3000\<close>, and after the
  step it is \<open>0x3003\<close>, not \<open>0x3001\<close>.
\<close>

theorem BR_taken_counterexample:
  "drop_bit 12 (fst (fetch (CPU blank (blank(0x3000 := 0x0402)) [] []))) = OP_BR
   \<and> registers (CPU blank (blank(0x3000 := 0x0402)) [] []) R_PC = 0x3000
   \<and> step (CPU blank (blank(0x3000 := 0x0402)) [] []) =
        Inr ((CPU blank (blank(0x3000 := 0x0402)) [] [])
               \<lparr>registers := blank(R_COND := FL_ZERO, R_PC := 0x3003)\<rparr>)"
  by (simp add: step_def fetch_def Read_def CPU_def reg_write_def Let_def execute_def BR_def
      SignExtend_def)

section \<open>Traps\<close>

text \<open>
  C7. For a TRAP instruction whose low byte is none of \<open>0x20\<close> to \<open>0x25\<close>, the trap layer
  stores the program counter in R7 and does nothing else: the other registers, memory,
  the run flag, the host's input and its output are as before, and control goes back to
  the loop without an error.
\<close>

theorem Proxy_unknown_vector:
  assumes "instruction AND 0x00FF \<notin>
             {TRAP_GETC, TRAP_OUT, TRAP_PUTS, TRAP_IN, TRAP_PUTSP, TRAP_HALT}"
  shows "Proxy instruction s = Inr (s\<lparr>registers := (registers s)(R_7 := registers s R_PC)\<rparr>)
       \<and> (drop_bit 12 instruction = OP_TRAP \<longrightarrow>
            execute instruction s = Inr (s\<lparr>registers := (registers s)(R_7 := registers s R_PC)\<rparr>))"
  using assms by (simp add: Proxy_def execute_def reg_write_def Let_def)

theorem Proxy_unknown_vector_witness:
  "execute 0xF026 (CPU blank blank [] []) =
     Inr ((CPU blank blank [] [])
            \<lparr>registers := blank(R_COND := FL_ZERO, R_PC := PC_START, R_7 := PC_START)\<rparr>)"
  using Proxy_unknown_vector [of "0xF026" "CPU blank blank [] []"]
  by (simp add: CPU_def)

section \<open>Condition codes\<close>

lemma cond_ok_same: "registers t R_COND = registers s R_COND \<Longrightarrow> cond_ok s \<Longrightarrow> cond_ok t"
  by (simp add: cond_ok_def)

lemma cond_ok_sign_class: "registers t R_COND = sign_class v \<Longrightarrow> cond_ok t"
  using sign_class_cases [of v] by (simp add: cond_ok_def)

lemma ALU_cond_ok:
  assumes "cond_ok s"
  shows "cond_ok (ADD i s)" "cond_ok (AND_op i s)" "cond_ok (NOT_op i s)" "cond_ok (LEA i s)"
    "cond_ok (LD i s)" "cond_ok (LDR i s)" "cond_ok (LDI i s)"
    "cond_ok (ST i s)" "cond_ok (STI i s)" "cond_ok (STR_op i s)"
    "cond_ok (BR i s)" "cond_ok (JMP i s)" "cond_ok (JSR i s)"
proof -
  show "cond_ok (ADD i s)" "cond_ok (AND_op i s)" "cond_ok (NOT_op i s)" "cond_ok (LEA i s)"
    "cond_ok (LD i s)" "cond_ok (LDR i s)" "cond_ok (LDI i s)"
    by (rule cond_ok_sign_class, rule ALU_flags)+
  show "cond_ok (ST i s)" "cond_ok (STI i s)" "cond_ok (STR_op i s)"
    "cond_ok (BR i s)" "cond_ok (JMP i s)" "cond_ok (JSR i s)"
    by (rule cond_ok_same [OF _ assms]; simp add: handler_defs Let_def split_def)+
qed

lemma trap_cond_ok:
  "cond_ok (GETC s)" "cond_ok (INC s)"
  "cond_ok s \<Longrightarrow> cond_ok (OUTC s)" "cond_ok s \<Longrightarrow> cond_ok (HALT s)"
  "cond_ok s \<Longrightarrow> PUTS s = Inr t \<Longrightarrow> cond_ok t"
  "cond_ok s \<Longrightarrow> PUTSP s = Inr t \<Longrightarrow> cond_ok t"
proof -
  show "cond_ok (GETC s)" "cond_ok (INC s)"
    by (rule cond_ok_sign_class, rule trap_flags)+
  show "cond_ok s \<Longrightarrow> cond_ok (OUTC s)" "cond_ok s \<Longrightarrow> cond_ok (HALT s)"
    by (simp_all add: cond_ok_def OUTC_def HALT_def)
  show "cond_ok s \<Longrightarrow> PUTS s = Inr t \<Longrightarrow> cond_ok t"
    using PUTS_loop_fields [of "unat (registers s R_0)" s]
    by (auto simp add: cond_ok_def PUTS_def split: sum.splits)
  show "cond_ok s \<Longrightarrow> PUTSP s = Inr t \<Longrightarrow> cond_ok t"
    using PUTSP_loop_fields [of "unat (registers s R_0)" s]
    by (auto simp add: cond_ok_def PUTSP_def split: sum.splits)
qed

lemma Proxy_cond_ok:
  assumes "cond_ok s" and "Proxy i s = Inr s'"
  shows "cond_ok s'"
proof -
  from assms(1) have "cond_ok (reg_write R_7 (registers s R_PC) s)"
    by (simp add: cond_ok_def)
  with assms(2) show ?thesis
    by (auto simp add: Proxy_def Let_def split: if_splits intro: trap_cond_ok)
qed

lemma execute_cond_ok:
  assumes "cond_ok s" and "execute i s = Inr s'"
  shows "cond_ok s'"
  using assms(2) ALU_cond_ok [OF assms(1), of i] Proxy_cond_ok [OF assms(1), of i s']
  by (auto simp add: execute_def Let_def split: if_splits)

lemma fetch_cond_ok: "cond_ok s \<Longrightarrow> cond_ok (snd (fetch s))"
  by (simp add: cond_ok_def fetch_registers)

lemma step_cond_ok: "cond_ok s \<Longrightarrow> step s = Inr s' \<Longrightarrow> cond_ok s'"
  using execute_cond_ok [OF fetch_cond_ok, of s "fst (fetch s)" s']
  by (simp add: step_def split_def Let_def)

lemma ReadImageFile_registers:
  "ReadImageFile file s = Some s' \<Longrightarrow>
     registers s' = registers s \<and> running s' = running s \<and> polls s' = polls s
     \<and> stdin s' = stdin s \<and> stdout s' = stdout s"
  by (auto simp add: ReadImageFile_def Let_def split: list.splits if_splits)

lemma reachable_cond_ok: "reachable s \<Longrightarrow> cond_ok s"
proof (induction rule: reachable.induct)
  case (constructed regs mem keys input)
  show ?case by (simp add: cond_ok_def CPU_def)
next
  case (loaded s img s')
  then show ?case
    using ReadImageFile_registers [of img s s'] by (simp add: cond_ok_def)
next
  case (stepped s s')
  then show ?case by (blast intro: step_cond_ok)
qed

text \<open>
  C3. \<^verbatim>\<open>UpdateFlags\<close> sets the condition register from the value of the register it is
  given and from nothing else, the old flags included: 2 (Z) if the value is zero, 4 (N)
  if its bit 15 is one, 1 (P) otherwise, so exactly one of 1, 2, 4. After each of the
  handlers ADD, AND, NOT, LD, LDR, LDI, LEA the condition register is that class of the
  value now in the destination register, and after the traps GETC and IN that of the
  value now in R0. In every state the program can reach, the condition register is one
  of 1, 2, 4.
\<close>

theorem flags_one_hot:
  "registers (UpdateFlags DR s) R_COND = sign_class (registers s DR)
   \<and> sign_class v \<in> {FL_POSITIVE, FL_ZERO, FL_NEGATIVE}
   \<and> (DR \<noteq> R_COND \<longrightarrow>
        registers (UpdateFlags DR s) DR = registers s DR
        \<and> registers (UpdateFlags DR (reg_write R_COND old s)) R_COND
            = registers (UpdateFlags DR s) R_COND)
   \<and> registers (ADD i s) R_COND = sign_class (registers (ADD i s) (drop_bit 9 i AND 7))
   \<and> registers (AND_op i s) R_COND = sign_class (registers (AND_op i s) (drop_bit 9 i AND 7))
   \<and> registers (NOT_op i s) R_COND = sign_class (registers (NOT_op i s) (drop_bit 9 i AND 7))
   \<and> registers (LD i s) R_COND = sign_class (registers (LD i s) (drop_bit 9 i AND 7))
   \<and> registers (LDR i s) R_COND = sign_class (registers (LDR i s) (drop_bit 9 i AND 7))
   \<and> registers (LDI i s) R_COND = sign_class (registers (LDI i s) (drop_bit 9 i AND 7))
   \<and> registers (LEA i s) R_COND = sign_class (registers (LEA i s) (drop_bit 9 i AND 7))
   \<and> registers (GETC s) R_COND = sign_class (registers (GETC s) R_0)
   \<and> registers (INC s) R_COND = sign_class (registers (INC s) R_0)
   \<and> (reachable s \<longrightarrow> registers s R_COND \<in> {FL_POSITIVE, FL_ZERO, FL_NEGATIVE})"
proof (intro conjI impI)
  show "registers (UpdateFlags DR s) R_COND = sign_class (registers s DR)"
    by simp
  show "sign_class v \<in> {FL_POSITIVE, FL_ZERO, FL_NEGATIVE}"
    by (rule sign_class_cases)
  show "registers (UpdateFlags DR s) DR = registers s DR" if "DR \<noteq> R_COND"
    using that by simp
  show "registers (UpdateFlags DR (reg_write R_COND old s)) R_COND
          = registers (UpdateFlags DR s) R_COND" if "DR \<noteq> R_COND"
    using that by simp
  show "registers s R_COND \<in> {FL_POSITIVE, FL_ZERO, FL_NEGATIVE}" if "reachable s"
    using reachable_cond_ok [OF that] by (simp add: cond_ok_def)
qed (rule ALU_flags trap_flags)+

theorem flags_one_hot_witness:
  "registers (ADD 0x147F (CPU blank blank [] [])) 2 = 0xFFFF
   \<and> registers (ADD 0x147F (CPU blank blank [] [])) R_COND = FL_NEGATIVE
   \<and> registers (CPU blank blank [] []) R_COND = FL_ZERO"
  using flags_one_hot [of 2 "CPU blank blank [] []" 0 0 "0x147F"]
    reachable.constructed [of blank blank "[]" "[]"]
  by (simp add: ADD_def SignExtend_def CPU_def Let_def sign_class_def)

section \<open>The image loader\<close>

lemma fread16_0 [simp]: "fread16 0 bs = []"
  by (cases "(0::nat, bs)" rule: fread16.cases) simp_all

lemma Swap16_le16: "Swap16 (le16 b0 b1) = be16 b0 b1"
  unfolding Swap16_def le16_def be16_def
  by (rule bit_word_eqI) (auto simp add: bit_simps dest: bit_imp_le_length)

lemma maxRead_origin_0: "(word_of_int (MEMORY_MAX - uint (0 :: u16)) :: u16) = 0"
  by simp

lemma maxRead_eq: "(word_of_int (MEMORY_MAX - uint (origin :: u16)) :: u16) = 0 - origin"
proof -
  have "(word_of_int (MEMORY_MAX - uint origin) :: u16)
          = word_of_int 65536 - word_of_int (uint origin)"
    by (rule of_int_diff)
  also have "\<dots> = 0 - origin"
    by (simp only: word_of_int_uint) simp
  finally show ?thesis .
qed

lemma unat_maxRead:
  "unat (word_of_int (MEMORY_MAX - uint (origin :: u16)) :: u16) =
     (if origin = 0 then 0 else 65536 - unat origin)"
proof (cases "origin = 0")
  case True
  then show ?thesis by (simp only: maxRead_eq) simp
next
  case False
  then have "unat (0 - origin) = 65536 - unat origin"
    using unat_sub_if' [of 0 origin] by (simp add: unat_eq_zero)
  with False show ?thesis
    by (simp only: maxRead_eq) simp
qed

lemma ReadImageFile_origin_0:
  assumes "Swap16 (le16 b0 b1) = 0"
  shows "ReadImageFile (b0 # b1 # data) s = Some s"
  by (simp add: ReadImageFile_def assms Let_def)

lemma map_Swap16_fread16: "map Swap16 (fread16 n bs) = take n (image_words bs)"
  by (induction n bs rule: fread16.induct) (auto simp add: Swap16_le16 take_Cons')

lemma length_image_words: "length (image_words bs) = length bs div 2"
  by (induction bs rule: image_words.induct) simp_all

lemma length_fread16: "length (fread16 n bs) = min n (length bs div 2)"
  using arg_cong [OF map_Swap16_fread16 [of n bs], of length]
  by (simp add: length_image_words)

lemma fread_store_outside:
  "(\<And>i. i < length ws \<Longrightarrow> a \<noteq> of_nat (p + i)) \<Longrightarrow> fread_store p ws mem a = mem a"
proof (induction ws arbitrary: p mem)
  case Nil
  show ?case by simp
next
  case (Cons w ws)
  have "fread_store (Suc p) ws (mem(of_nat p := w)) a = (mem(of_nat p := w)) a"
    using Cons.prems [of "Suc i" for i] by (intro Cons.IH) simp
  moreover have "a \<noteq> of_nat p"
    using Cons.prems [of 0] by simp
  ultimately show ?case by simp
qed

lemma of_nat_u16_inj:
  "i < 65536 \<Longrightarrow> j < 65536 \<Longrightarrow> (of_nat i :: u16) = of_nat j \<longleftrightarrow> i = j"
  by (simp add: word_of_nat_eq_iff take_bit_nat_eq_self)

lemma fread_store_inside:
  "p + length ws \<le> 65536 \<Longrightarrow> i < length ws \<Longrightarrow> fread_store p ws mem (of_nat (p + i)) = ws ! i"
proof (induction ws arbitrary: p mem i)
  case Nil
  then show ?case by simp
next
  case (Cons w ws)
  show ?case
  proof (cases i)
    case 0
    have "fread_store (Suc p) ws (mem(of_nat p := w)) (of_nat p) = (mem(of_nat p := w)) (of_nat p)"
    proof (rule fread_store_outside)
      fix k assume "k < length ws"
      with Cons.prems show "(of_nat p :: u16) \<noteq> of_nat (Suc p + k)"
        by (simp add: of_nat_u16_inj del: of_nat_add of_nat_Suc)
    qed
    with 0 show ?thesis by simp
  next
    case (Suc j)
    with Cons.prems have "fread_store (Suc p) ws (mem(of_nat p := w)) (of_nat (Suc p + j)) = ws ! j"
      by (intro Cons.IH) simp_all
    with Suc show ?thesis by simp
  qed
qed

lemma swap_loop_fread_store:
  "p + length ws \<le> 65536 \<Longrightarrow>
     swap_loop p (length ws) (fread_store p ws mem) = fread_store p (map Swap16 ws) mem"
proof (induction ws arbitrary: p mem)
  case Nil
  show ?case by simp
next
  case (Cons w ws)
  let ?m = "fread_store (Suc p) ws (mem(of_nat p := w))"
  have at_p: "?m (of_nat p) = w"
  proof -
    have "?m (of_nat p) = (mem(of_nat p := w)) (of_nat p)"
    proof (rule fread_store_outside)
      fix k assume "k < length ws"
      with Cons.prems show "(of_nat p :: u16) \<noteq> of_nat (Suc p + k)"
        by (simp add: of_nat_u16_inj del: of_nat_add of_nat_Suc)
    qed
    then show ?thesis by simp
  qed
  have commute: "?m(of_nat p := v) = fread_store (Suc p) ws (mem(of_nat p := v))" for v
  proof
    fix a
    show "(?m(of_nat p := v)) a = fread_store (Suc p) ws (mem(of_nat p := v)) a"
    proof (cases "\<exists>k < length ws. a = of_nat (Suc p + k)")
      case True
      then obtain k where k: "k < length ws" "a = of_nat (Suc p + k)" by blast
      with Cons.prems have "a \<noteq> of_nat p"
        by (simp add: of_nat_u16_inj del: of_nat_add of_nat_Suc)
      moreover from k Cons.prems have "?m a = ws ! k"
        and "fread_store (Suc p) ws (mem(of_nat p := v)) a = ws ! k"
        using fread_store_inside [of "Suc p" ws k "mem(of_nat p := w)"]
          fread_store_inside [of "Suc p" ws k "mem(of_nat p := v)"]
        by simp_all
      ultimately show ?thesis by simp
    next
      case False
      then have out: "a \<noteq> of_nat (Suc p + k)" if "k < length ws" for k
        using that by blast
      have "?m a = (mem(of_nat p := w)) a"
        by (rule fread_store_outside) (rule out)
      moreover have "fread_store (Suc p) ws (mem(of_nat p := v)) a = (mem(of_nat p := v)) a"
        by (rule fread_store_outside) (rule out)
      ultimately show ?thesis by simp
    qed
  qed
  have "swap_loop p (length (w # ws)) (fread_store p (w # ws) mem)
          = swap_loop (Suc p) (length ws) (?m(of_nat p := Swap16 (?m (of_nat p))))"
    by simp
  also have "\<dots> = swap_loop (Suc p) (length ws) (fread_store (Suc p) ws (mem(of_nat p := Swap16 w)))"
    by (simp only: at_p commute)
  also have "\<dots> = fread_store (Suc p) (map Swap16 ws) (mem(of_nat p := Swap16 w))"
    using Cons.prems by (intro Cons.IH) simp
  finally show ?case by simp
qed

text \<open>
  For every origin other than 0 the loader does what the specification asks: of an
  image with origin \<open>O\<close> and \<open>N\<close> whole data words it stores the first
  \<open>min N (0x10000 - O)\<close>, read big-endian, from \<open>memory[O]\<close> on, and touches nothing else.
\<close>

lemma unat_plus_small:
  "unat (origin :: u16) + i < 65536 \<Longrightarrow> origin + of_nat i = of_nat (unat origin + i)"
  by simp

lemma ReadImageFile_loads:
  assumes origin: "be16 b0 b1 \<noteq> 0" and whole: "even (length data)"
  defines "origin \<equiv> be16 b0 b1"
  defines "count \<equiv> min (length (image_words data)) (65536 - unat origin)"
  shows "\<exists>s'. ReadImageFile (b0 # b1 # data) s = Some s'
           \<and> (\<forall>i < count. memory s' (origin + of_nat i) = image_words data ! i)
           \<and> (\<forall>a. (\<forall>i < count. a \<noteq> origin + of_nat i) \<longrightarrow> memory s' a = memory s a)
           \<and> registers s' = registers s \<and> running s' = running s"
proof -
  define n where "n = 65536 - unat origin"
  define items where "items = fread16 n data"
  have n: "unat (word_of_int (MEMORY_MAX - uint origin) :: u16) = n"
    using origin by (simp only: unat_maxRead n_def origin_def) simp
  have len: "length items = count"
    by (simp add: items_def length_fread16 count_def n_def length_image_words min.commute)
  have "unat origin < 65536"
    using unsigned_less [of origin, where ?'a = nat] by simp
  then have fits: "unat origin + length items \<le> 65536"
    unfolding len count_def by simp
  have swapped: "map Swap16 items = take n (image_words data)"
    by (simp add: items_def map_Swap16_fread16)
  define mem' where "mem' = fread_store (unat origin) (map Swap16 items) (memory s)"
  have "ReadImageFile (b0 # b1 # data) s =
      (if length items < n \<and> odd (length data) then None
       else Some (s\<lparr>memory := swap_loop (unat origin) (length items)
                                 (fread_store (unat origin) items (memory s))\<rparr>))"
    by (simp only: ReadImageFile_def list.case Let_def Swap16_le16 origin_def [symmetric] n
        items_def)
  then have load: "ReadImageFile (b0 # b1 # data) s = Some (s\<lparr>memory := mem'\<rparr>)"
    using whole fits by (simp add: swap_loop_fread_store mem'_def)
  have inside: "mem' (origin + of_nat i) = image_words data ! i" if "i < count" for i
  proof -
    from that len fits have "origin + of_nat i = of_nat (unat origin + i)"
      by (intro unat_plus_small) simp
    moreover have "mem' (of_nat (unat origin + i)) = map Swap16 items ! i"
      unfolding mem'_def using fits that len by (intro fread_store_inside) simp_all
    moreover have "map Swap16 items ! i = image_words data ! i"
      using that by (simp only: swapped) (simp add: count_def n_def)
    ultimately show ?thesis by simp
  qed
  have outside: "mem' a = memory s a" if "\<forall>i < count. a \<noteq> origin + of_nat i" for a
    unfolding mem'_def
  proof (rule fread_store_outside)
    fix i assume "i < length (map Swap16 items)"
    then have i: "i < count" by (simp add: len)
    with len fits have "origin + of_nat i = of_nat (unat origin + i)"
      by (intro unat_plus_small) simp
    with that i show "a \<noteq> of_nat (unat origin + i)" by metis
  qed
  show ?thesis
    using load inside outside by simp
qed

lemma ReadImageFile_example:
  "map_option (\<lambda>s'. (memory s' 0x3000, memory s' 0x3001, memory s' 0x3002))
     (ReadImageFile [0x30, 0x00, 0x12, 0x34, 0x56, 0x78] (CPU blank blank [] []))
   = Some (0x1234, 0x5678, 0)"
  by (simp add: ReadImageFile_def Swap16_def le16_def CPU_def Let_def)

text \<open>
  C10. When the origin word of an image is \<open>0x0000\<close>, the count \<^verbatim>\<open>maxRead\<close>, computed as
  \<open>0x10000 - 0\<close> and stored in 16 bits, is 0; the read of the data words asks for 0
  words and gets none; \<^verbatim>\<open>ReadImageFile\<close> leaves memory, and the whole machine, as it was.
\<close>

theorem ReadImageFile_origin_zero:
  assumes "Swap16 (le16 b0 b1) = 0"
  shows "(word_of_int (MEMORY_MAX - uint (Swap16 (le16 b0 b1))) :: u16) = 0
       \<and> fread16 (unat (word_of_int (MEMORY_MAX - uint (Swap16 (le16 b0 b1))) :: u16)) data = []
       \<and> ReadImageFile (b0 # b1 # data) s = Some s"
  using assms ReadImageFile_origin_0 [OF assms] by simp

theorem ReadImageFile_origin_zero_witness:
  "ReadImageFile [0x00, 0x00, 0x12, 0x34, 0x56, 0x78] (CPU blank blank [] []) =
     Some (CPU blank blank [] [])"
  using ReadImageFile_origin_zero [of 0 0 "[0x12, 0x34, 0x56, 0x78]" "CPU blank blank [] []"]
  by (simp add: Swap16_def le16_def)

text \<open>
  C2, at the input where the code departs from it. The image \<open>00 00 12 34\<close> has the
  origin \<open>0x0000\<close> and the one data word \<open>0x1234\<close>. Loading it into a machine whose memory
  is zero succeeds and changes nothing: \<open>memory[0]\<close> is still 0, where the specification asks for
  \<open>0x1234\<close>.
\<close>

theorem ReadImageFile_origin_zero_drops_image:
  "image_words [0x12, 0x34] = [0x1234]
   \<and> ReadImageFile [0x00, 0x00, 0x12, 0x34] (CPU blank blank [] []) =
       Some (CPU blank blank [] [])
   \<and> memory (CPU blank blank [] []) 0 = 0"
  using ReadImageFile_origin_0 [of 0 0 "[0x12, 0x34]" "CPU blank blank [] []"]
  by (simp add: Swap16_def le16_def be16_def CPU_def)

section \<open>Writes and later reads on the bus\<close>

lemma Read_memory:
  assumes "a \<noteq> MR_KBSR" and "a = MR_KBDR \<Longrightarrow> \<not> (b = MR_KBSR \<and> fst (CheckKey s))"
  shows "memory (snd (Read b s)) a = memory s a"
  using assms
  by (auto simp add: Read_def CheckKey_def getchar_def Let_def split: list.splits prod.splits)

lemma bus_run_memory:
  assumes "a \<noteq> MR_KBSR"
    and "no_write_to a ops"
    and "a = MR_KBDR \<Longrightarrow> \<not> kbdr_latched ops s"
  shows "memory (bus_run ops s) a = memory s a"
  using assms(2,3)
proof (induction ops arbitrary: s)
  case Nil
  show ?case by simp
next
  case (Cons op ops)
  show ?case
  proof (cases op)
    case (BusRead b)
    with Cons.prems have "memory (bus_run ops (snd (Read b s))) a = memory (snd (Read b s)) a"
      by (intro Cons.IH) simp_all
    moreover from BusRead Cons.prems have "memory (snd (Read b s)) a = memory s a"
      by (intro Read_memory assms(1)) simp
    ultimately show ?thesis
      using BusRead by simp
  next
    case (BusWrite b v')
    with Cons.prems have "memory (bus_run ops (Write b v' s)) a = memory (Write b v' s) a"
      by (intro Cons.IH) simp_all
    with BusWrite Cons.prems show ?thesis by simp
  qed
qed

text \<open>
  C9, amended. For every address \<open>a\<close> other than the keyboard status register and every
  value \<open>v\<close>: after \<open>write(a, v)\<close> and any bus operations among which there is no write to
  \<open>a\<close> and, when \<open>a\<close> is the keyboard data register \<open>0xFE02\<close>, no read of the status
  register that finds a key available, \<open>read(a)\<close> returns \<open>v\<close>.
\<close>

theorem write_then_read:
  assumes "a \<noteq> MR_KBSR"
    and "no_write_to a ops"
    and "a = MR_KBDR \<Longrightarrow> \<not> kbdr_latched ops (Write a v s)"
  shows "fst (Read a (bus_run ops (Write a v s))) = v"
proof -
  have "memory (bus_run ops (Write a v s)) a = memory (Write a v s) a"
    using assms by (rule bus_run_memory)
  with assms(1) show ?thesis
    by (simp add: Read_def)
qed

theorem write_then_read_witness:
  "fst (Read MR_KBDR (bus_run [BusRead MR_KBSR, BusWrite 0x3000 7, BusRead 0x3000]
      (Write MR_KBDR 0x1234 (CPU blank blank [False] [0x41])))) = 0x1234
   \<and> fst (Read 0x3000 (bus_run [BusRead MR_KBSR, BusWrite MR_KBDR 7]
      (Write 0x3000 0x1234 (CPU blank blank [True] [0x41])))) = 0x1234"
  using write_then_read [of MR_KBDR "[BusRead MR_KBSR, BusWrite 0x3000 7, BusRead 0x3000]"
      "0x1234" "CPU blank blank [False] [0x41]"]
    write_then_read [of "0x3000" "[BusRead MR_KBSR, BusWrite MR_KBDR 7]"
      "0x1234" "CPU blank blank [True] [0x41]"]
  by (simp add: CPU_def CheckKey_def Write_def Read_def getchar_def)

text \<open>
  C9 as it is stated fails at the keyboard data register. After \<open>write(0xFE02, 0x1234)\<close>
  the only bus operation is a read of \<open>0xFE00\<close>, with a key available and the character
  \<open>0x41\<close> on standard input: no write to \<open>0xFE02\<close> comes between, and \<open>read(0xFE02)\<close>
  returns \<open>0x0041\<close>.
\<close>

theorem KBDR_latch_counterexample:
  "MR_KBDR \<noteq> MR_KBSR
   \<and> no_write_to MR_KBDR [BusRead MR_KBSR]
   \<and> fst (Read MR_KBDR (bus_run [BusRead MR_KBSR]
        (Write MR_KBDR 0x1234 (CPU blank blank [True] [0x41])))) = 0x0041"
  by (simp add: CPU_def CheckKey_def Write_def Read_def getchar_def)

section \<open>The packed string trap\<close>

lemma low_byte: "(ucast (w AND 0x00FF :: u16) :: byte) = ucast w"
proof -
  have "(0x00FF :: u16) = mask 8"
    by (simp add: mask_eq_exp_minus_1)
  moreover have "(ucast (w AND mask 8 :: u16) :: byte) = ucast w"
    by (rule bit_word_eqI) (auto simp add: bit_simps)
  ultimately show ?thesis
    by (simp only:)
qed

lemma PUTSP_loop_step:
  assumes "int c < MEMORY_MAX" and "memory s (of_nat c) \<noteq> 0"
  shows "PUTSP_loop c s =
           PUTSP_loop (Suc c) (s\<lparr>stdout := stdout s @ packed_bytes (memory s (of_nat c))\<rparr>)"
  using assms
  by (subst PUTSP_loop.simps) (simp add: Let_def low_byte packed_bytes_def putc_def)

lemma PUTSP_loop_stop:
  assumes "int c < MEMORY_MAX" and "memory s (of_nat c) = 0"
  shows "PUTSP_loop c s = Inr s"
  using assms by (subst PUTSP_loop.simps) simp

lemma PUTSP_loop_emits:
  assumes "c + n < 65536"
    and "\<forall>i<n. memory s (of_nat (c + i)) \<noteq> 0"
    and "memory s (of_nat (c + n)) = 0"
  shows "PUTSP_loop c s =
           Inr (s\<lparr>stdout := stdout s @ concat (map (\<lambda>i. packed_bytes (memory s (of_nat (c + i)))) [0..<n])\<rparr>)"
  using assms
proof (induction n arbitrary: c s)
  case 0
  then show ?case by (simp add: PUTSP_loop_stop)
next
  case (Suc n)
  let ?s = "s\<lparr>stdout := stdout s @ packed_bytes (memory s (of_nat c))\<rparr>"
  from Suc.prems have "memory s (of_nat (c + 0)) \<noteq> 0"
    by blast
  with Suc.prems have "PUTSP_loop c s = PUTSP_loop (Suc c) ?s"
    by (intro PUTSP_loop_step) simp_all
  also have "\<dots> = Inr (?s\<lparr>stdout := stdout ?s @
      concat (map (\<lambda>i. packed_bytes (memory ?s (of_nat (Suc c + i)))) [0..<n])\<rparr>)"
  proof (rule Suc.IH)
    from Suc.prems show "Suc c + n < 65536" by simp
    have "memory s (of_nat (c + Suc i)) \<noteq> 0" if "i < n" for i
      using Suc.prems(2) [rule_format, of "Suc i"] that by simp
    then show "\<forall>i<n. memory ?s (of_nat (Suc c + i)) \<noteq> 0"
      by (simp del: of_nat_add of_nat_Suc)
    from Suc.prems(3) show "memory ?s (of_nat (Suc c + n)) = 0"
      by simp
  qed
  also have "map (\<lambda>i. packed_bytes (memory ?s (of_nat (Suc c + i)))) [0..<n]
      = map (\<lambda>i. packed_bytes (memory s (of_nat (c + i)))) (map Suc [0..<n])"
    by (simp del: of_nat_add of_nat_Suc)
  finally show ?case
    by (simp add: upt_conv_Cons map_Suc_upt del: upt_Suc of_nat_add of_nat_Suc)
qed

lemma PUTSP_loop_runs_off:
  assumes "c + k = 65536"
    and "\<forall>a. c \<le> a \<and> a < 65536 \<longrightarrow> memory s (of_nat a) \<noteq> 0"
  shows "PUTSP_loop c s = Inl OutOfBounds"
  using assms
proof (induction k arbitrary: c s)
  case 0
  then show ?case by (subst PUTSP_loop.simps) simp
next
  case (Suc k)
  let ?s = "s\<lparr>stdout := stdout s @ packed_bytes (memory s (of_nat c))\<rparr>"
  from Suc.prems have "c < 65536" and "memory s (of_nat c) \<noteq> 0"
    by simp_all
  then have "PUTSP_loop c s = PUTSP_loop (Suc c) ?s"
    by (intro PUTSP_loop_step) simp_all
  also from Suc.prems have "\<dots> = Inl OutOfBounds"
    by (intro Suc.IH) simp_all
  finally show ?case .
qed

lemma all_less_2: "(\<forall>i<(2::nat). P i) \<longleftrightarrow> P 0 \<and> P 1"
  by (auto simp add: less_Suc_eq numeral_2_eq_2)
lemma upt_0_2: "[0..<2] = [0, 1]"
  by (simp add: numeral_2_eq_2)

lemma PUTSP_routine:
  assumes "unat (registers s R_0) + n < 65536"
    and "\<forall>i<n. memory s (registers s R_0 + of_nat i) \<noteq> 0"
    and "memory s (registers s R_0 + of_nat n) = 0"
  shows "PUTSP s =
           Inr (s\<lparr>stdout := stdout s
                   @ concat (map (\<lambda>i. packed_bytes (memory s (registers s R_0 + of_nat i))) [0..<n])
                   @ [Flush]\<rparr>)"
proof -
  have "PUTSP_loop (unat (registers s R_0)) s =
      Inr (s\<lparr>stdout := stdout s @ concat (map (\<lambda>i. packed_bytes
        (memory s (of_nat (unat (registers s R_0) + i)))) [0..<n])\<rparr>)"
    using assms by (intro PUTSP_loop_emits) simp_all
  then show ?thesis
    by (simp add: PUTSP_def fflush_def)
qed

lemma execute_PUTSP:
  assumes "drop_bit 12 instruction = OP_TRAP" and "instruction AND 0x00FF = TRAP_PUTSP"
    and "unat (registers s R_0) + n < 65536"
    and "\<forall>i<n. memory s (registers s R_0 + of_nat i) \<noteq> 0"
    and "memory s (registers s R_0 + of_nat n) = 0"
  shows "execute instruction s =
           Inr (s\<lparr>registers := (registers s)(R_7 := registers s R_PC),
                   stdout := stdout s
                   @ concat (map (\<lambda>i. packed_bytes (memory s (registers s R_0 + of_nat i))) [0..<n])
                   @ [Flush]\<rparr>)"
proof -
  let ?s = "reg_write R_7 (registers s R_PC) s"
  have "PUTSP ?s =
      Inr (?s\<lparr>stdout := stdout ?s
            @ concat (map (\<lambda>i. packed_bytes (memory ?s (registers ?s R_0 + of_nat i))) [0..<n])
            @ [Flush]\<rparr>)"
    using assms(3-5) by (intro PUTSP_routine) simp_all
  with assms(1,2) show ?thesis
    by (simp add: execute_def Proxy_def Let_def reg_write_def)
qed

lemma fetch_plain:
  assumes "registers s R_PC \<noteq> MR_KBSR"
  shows "fetch s = (memory s (registers s R_PC), reg_write R_PC (registers s R_PC + 1) s)"
  using assms by (simp add: fetch_def Read_def Let_def)

text \<open>
  C8. Executing TRAP \<open>0x24\<close>, with a zero word at \<open>R0 + n\<close> inside memory and none before
  it, saves the program counter in R7 and writes, for each of the words at
  \<open>R0, ..., R0 + n - 1\<close> in this order, the low byte and then the high byte if that is not
  zero, and flushes the output once at the end; nothing else of the machine changes.
  Only a word that is zero ends the scan: a word with one zero byte has its low byte
  written, a zero low byte too, and the scan goes on. This holds of the dispatch on the
  instruction, and of the whole step that fetches it from memory.
\<close>

theorem PUTSP_emits:
  assumes "drop_bit 12 instruction = OP_TRAP" and "instruction AND 0x00FF = TRAP_PUTSP"
    and "unat (registers s R_0) + n < 65536"
    and "\<forall>i<n. memory s (registers s R_0 + of_nat i) \<noteq> 0"
    and "memory s (registers s R_0 + of_nat n) = 0"
  shows "execute instruction s =
           Inr (s\<lparr>registers := (registers s)(R_7 := registers s R_PC),
                   stdout := stdout s
                   @ concat (map (\<lambda>i. packed_bytes (memory s (registers s R_0 + of_nat i))) [0..<n])
                   @ [Flush]\<rparr>)
       \<and> (registers s R_PC \<noteq> MR_KBSR \<and> memory s (registers s R_PC) = instruction \<longrightarrow>
            step s =
              Inr (s\<lparr>registers := (registers s)(R_PC := registers s R_PC + 1,
                                                  R_7 := registers s R_PC + 1),
                      stdout := stdout s
                      @ concat (map (\<lambda>i. packed_bytes (memory s (registers s R_0 + of_nat i))) [0..<n])
                      @ [Flush]\<rparr>))"
proof (intro conjI impI)
  show "execute instruction s =
           Inr (s\<lparr>registers := (registers s)(R_7 := registers s R_PC),
                   stdout := stdout s
                   @ concat (map (\<lambda>i. packed_bytes (memory s (registers s R_0 + of_nat i))) [0..<n])
                   @ [Flush]\<rparr>)"
    using assms by (rule execute_PUTSP)
next
  assume a: "registers s R_PC \<noteq> MR_KBSR \<and> memory s (registers s R_PC) = instruction"
  let ?s1 = "reg_write R_PC (registers s R_PC + 1) s"
  from a have "step s = execute instruction ?s1"
    by (simp add: step_def fetch_plain)
  also have "\<dots> = Inr (?s1\<lparr>registers := (registers ?s1)(R_7 := registers ?s1 R_PC),
                   stdout := stdout ?s1
                   @ concat (map (\<lambda>i. packed_bytes (memory ?s1 (registers ?s1 R_0 + of_nat i))) [0..<n])
                   @ [Flush]\<rparr>)"
    using assms by (intro execute_PUTSP) simp_all
  finally show "step s =
              Inr (s\<lparr>registers := (registers s)(R_PC := registers s R_PC + 1,
                                                  R_7 := registers s R_PC + 1),
                      stdout := stdout s
                      @ concat (map (\<lambda>i. packed_bytes (memory s (registers s R_0 + of_nat i))) [0..<n])
                      @ [Flush]\<rparr>)"
    by (simp add: reg_write_def)
qed

theorem PUTSP_emits_witness:
  "step (reg_write R_0 0x3100
      (CPU blank (blank(0x3000 := 0xF024, 0x3100 := 0x6548, 0x3101 := 0x4100)) [] [])) =
     Inr \<lparr>registers = blank(R_COND := FL_ZERO, R_PC := 0x3001, R_0 := 0x3100, R_7 := 0x3001),
          memory = blank(0x3000 := 0xF024, 0x3100 := 0x6548, 0x3101 := 0x4100),
          running = True, polls = [], stdin = [],
          stdout = [Put 0x48, Put 0x65, Put 0x00, Put 0x41, Flush]\<rparr>"
proof -
  let ?s = "reg_write R_0 0x3100
      (CPU blank (blank(0x3000 := 0xF024, 0x3100 := 0x6548, 0x3101 := 0x4100)) [] [])"
  have op: "drop_bit 12 (0xF024 :: u16) = OP_TRAP" and vec: "(0xF024 :: u16) AND 0x00FF = TRAP_PUTSP"
    by simp_all
  have a: "unat (registers ?s R_0) + 2 < 65536"
    by (simp add: CPU_def)
  have b: "\<forall>i<2. memory ?s (registers ?s R_0 + of_nat i) \<noteq> 0"
    by (simp add: all_less_2 CPU_def)
  have c: "memory ?s (registers ?s R_0 + of_nat 2) = 0"
    by (simp add: CPU_def)
  have d: "registers ?s R_PC \<noteq> MR_KBSR \<and> memory ?s (registers ?s R_PC) = 0xF024"
    by (simp add: CPU_def)
  from PUTSP_emits [OF op vec a b c] d show ?thesis
    by (simp add: upt_0_2 packed_bytes_def CPU_def reg_write_def fun_eq_iff)
qed

end
